theory Spec2Isabelle
  imports Main
begin

section \<open>JavaScript values\<close>

text \<open>
  The values that server.js handles as field and cell contents. A field of a parsed
  soldier element is a leaf: text (a string), numeric text (the XML parser turns it into
  a number), the texts true and false (booleans), or it is absent (undefined). A
  spreadsheet cell holds the same kinds of value, or null when it is empty. Numbers are
  modelled as integers. Nested elements inside a field are outside the model.
\<close>

datatype jsval =
    JUndefined
  | JNull
  | JBool bool
  | JNum int
  | JStr string

text \<open>Truthiness, as \<^verbatim>\<open>!v\<close>, \<^verbatim>\<open>v && ...\<close> and \<^verbatim>\<open>v || ...\<close> test it.\<close>

fun truthy :: "jsval \<Rightarrow> bool" where
  "truthy JUndefined = False"
| "truthy JNull = False"
| "truthy (JBool b) = b"
| "truthy (JNum n) = (n \<noteq> 0)"
| "truthy (JStr s) = (s \<noteq> [])"

text \<open>\<^verbatim>\<open>a || b\<close>\<close>

definition js_or :: "jsval \<Rightarrow> jsval \<Rightarrow> jsval" where
  "js_or a b = (if truthy a then a else b)"

text \<open>\<^verbatim>\<open>typeof v === 'string'\<close>\<close>

fun is_string :: "jsval \<Rightarrow> bool" where
  "is_string (JStr s) = True"
| "is_string v = False"

text \<open>Decimal rendering of a number, as template literals and toString produce it.\<close>

definition digit_char :: "nat \<Rightarrow> char" where
  "digit_char d = ''0123456789'' ! d"

fun show_nat :: "nat \<Rightarrow> string" where
  "show_nat n = (if n < 10 then [digit_char n] else show_nat (n div 10) @ [digit_char (n mod 10)])"

declare show_nat.simps [simp del]

definition show_int :: "int \<Rightarrow> string" where
  "show_int i = (if i < 0 then CHR ''-'' # show_nat (nat (- i)) else show_nat (nat i))"

text \<open>\<^verbatim>\<open>String(v)\<close>, the conversion a template literal and RegExp.test apply.\<close>

fun to_String :: "jsval \<Rightarrow> string" where
  "to_String JUndefined = ''undefined''"
| "to_String JNull = ''null''"
| "to_String (JBool b) = (if b then ''true'' else ''false'')"
| "to_String (JNum n) = show_int n"
| "to_String (JStr s) = s"

text \<open>
  \<^verbatim>\<open>v.length > n\<close>: only a string has a length here; on a number or a boolean the
  property is undefined and the comparison is false.
\<close>

fun length_exceeds :: "jsval \<Rightarrow> nat \<Rightarrow> bool" where
  "length_exceeds (JStr s) n = (length s > n)"
| "length_exceeds v n = False"

text \<open>\<^verbatim>\<open>s.includes(t)\<close>: t occurs in s as a contiguous substring.\<close>

fun starts_with :: "string \<Rightarrow> string \<Rightarrow> bool" where
  "starts_with s [] = True"
| "starts_with [] (c # t) = False"
| "starts_with (d # s) (c # t) = (d = c \<and> starts_with s t)"

fun str_includes :: "string \<Rightarrow> string \<Rightarrow> bool" where
  "str_includes [] t = (t = [])"
| "str_includes (c # s) t = (starts_with (c # s) t \<or> str_includes s t)"

text \<open>\<^verbatim>\<open>xs.join(sep)\<close>\<close>

fun join :: "string \<Rightarrow> string list \<Rightarrow> string" where
  "join sep [] = []"
| "join sep [x] = x"
| "join sep (x # y # ys) = x @ sep @ join sep (y # ys)"

section \<open>The service date: format and calendar checks\<close>

text \<open>The regular expression \<^verbatim>\<open>/^\d{4}-\d{2}-\d{2}$/\<close>, read left to right.\<close>

definition is_digit :: "char \<Rightarrow> bool" where
  "is_digit c = (c \<in> set ''0123456789'')"

fun match_digits :: "nat \<Rightarrow> string \<Rightarrow> string option" where
  "match_digits 0 s = Some s"
| "match_digits (Suc n) [] = None"
| "match_digits (Suc n) (c # s) = (if is_digit c then match_digits n s else None)"

fun match_char :: "char \<Rightarrow> string \<Rightarrow> string option" where
  "match_char c [] = None"
| "match_char c (d # s) = (if d = c then Some s else None)"

definition dateRegex_test :: "string \<Rightarrow> bool" where
  "dateRegex_test s =
     (Option.bind (Option.bind (Option.bind (Option.bind (match_digits 4 s)
        (match_char CHR ''-'')) (match_digits 2)) (match_char CHR ''-'')) (match_digits 2)
      = Some [])"

text \<open>
  \<^verbatim>\<open>isNaN(new Date(v).getTime())\<close>. The server runs on Node, whose engine reads a
  date-only ISO string by its three numbers and accepts it when the month is 1 to 12 and
  the day is 1 to 31, whatever the month (a day beyond the month's end rolls over into
  the next month). The check is only reached for a value whose text matches the regular
  expression; a number or a boolean or null gives a valid time value, undefined gives
  NaN.
\<close>

definition digit_value :: "char \<Rightarrow> nat" where
  "digit_value c = of_char c - of_char CHR ''0''"

definition number_of :: "string \<Rightarrow> nat" where
  "number_of s = foldl (\<lambda>a c. 10 * a + digit_value c) 0 s"

definition iso_date_isNaN :: "string \<Rightarrow> bool" where
  "iso_date_isNaN s =
     (let month = number_of (take 2 (drop 5 s)); day = number_of (take 2 (drop 8 s))
      in \<not> (1 \<le> month \<and> month \<le> 12 \<and> 1 \<le> day \<and> day \<le> 31))"

fun date_isNaN :: "jsval \<Rightarrow> bool" where
  "date_isNaN (JStr s) = iso_date_isNaN s"
| "date_isNaN JUndefined = True"
| "date_isNaN v = False"

section \<open>The schema validator\<close>

text \<open>A soldier element, as the XML parser delivers it: six fields, each possibly absent.\<close>

record soldier =
  soldier_id :: jsval
  soldier_name :: jsval
  soldier_rank :: jsval
  soldier_unit :: jsval
  soldier_service_date :: jsval
  soldier_status :: jsval

text \<open>
  The value of \<^verbatim>\<open>army_records.soldier\<close>: absent (or an empty element, which is falsy),
  one element, or an array of elements.
\<close>

datatype soldier_prop =
    SoldierAbsent
  | SoldierSingle soldier
  | SoldierArray "soldier list"

text \<open>
  The parsed document: \<open>army_records = None\<close> when the root key is absent or falsy (an
  empty root element parses to the empty string).
\<close>

record xml_data =
  army_records :: "soldier_prop option"

record verdict =
  isValid :: bool
  errors :: "string list"
  soldiers :: "soldier list"

text \<open>The message prefix of every violation of soldier number k.\<close>

definition violation :: "nat \<Rightarrow> string \<Rightarrow> string" where
  "violation soldierIndex msg = ''XSD VIOLATION: Soldier '' @ show_nat soldierIndex @ '' - '' @ msg"

text \<open>
  The body of the forEach callback, statement by statement: each block pushes onto
  validationErrors, which is threaded through.
\<close>

definition check_required_string :: "nat \<Rightarrow> string \<Rightarrow> jsval \<Rightarrow> string list \<Rightarrow> string list" where
  "check_required_string soldierIndex label v validationErrors =
     (if \<not> truthy v then
        validationErrors @ [violation soldierIndex (''Missing required field: '' @ label)]
      else if \<not> is_string v then
        validationErrors @ [violation soldierIndex (label @ '' must be a string'')]
      else validationErrors)"

definition check_service_date :: "nat \<Rightarrow> jsval \<Rightarrow> string list \<Rightarrow> string list" where
  "check_service_date soldierIndex v validationErrors =
     (if \<not> truthy v then
        validationErrors @ [violation soldierIndex ''Missing required field: Service Date'']
      else if \<not> dateRegex_test (to_String v) then
        validationErrors @ [violation soldierIndex ''Service Date must be in YYYY-MM-DD format'']
      else if date_isNaN v then
        validationErrors @ [violation soldierIndex (''Invalid date: '' @ to_String v)]
      else validationErrors)"

definition check_status :: "nat \<Rightarrow> jsval \<Rightarrow> string list \<Rightarrow> string list" where
  "check_status soldierIndex v validationErrors =
     (if \<not> truthy v then
        validationErrors @ [violation soldierIndex ''Missing required field: Status'']
      else if v \<notin> set [JStr ''Active'', JStr ''Retired'', JStr ''Deceased''] then
        validationErrors @ [violation soldierIndex
          (''Status must be one of: Active, Retired, Deceased (got: '' @ to_String v @ '')'')]
      else validationErrors)"

definition check_max_length :: "nat \<Rightarrow> string \<Rightarrow> nat \<Rightarrow> jsval \<Rightarrow> string list \<Rightarrow> string list" where
  "check_max_length soldierIndex label n v validationErrors =
     (if truthy v \<and> length_exceeds v n then
        validationErrors @ [violation soldierIndex
          (label @ '' length exceeds maximum ('' @ show_nat n @ '' characters)'')]
      else validationErrors)"

definition validate_soldier :: "nat \<Rightarrow> soldier \<Rightarrow> string list \<Rightarrow> string list" where
  "validate_soldier soldierIndex s validationErrors =
     (let e1 = check_required_string soldierIndex ''ID'' (soldier_id s) validationErrors;
          e2 = check_required_string soldierIndex ''Name'' (soldier_name s) e1;
          e3 = check_required_string soldierIndex ''Rank'' (soldier_rank s) e2;
          e4 = check_required_string soldierIndex ''Unit'' (soldier_unit s) e3;
          e5 = check_service_date soldierIndex (soldier_service_date s) e4;
          e6 = check_status soldierIndex (soldier_status s) e5;
          e7 = check_max_length soldierIndex ''ID'' 50 (soldier_id s) e6;
          e8 = check_max_length soldierIndex ''Name'' 100 (soldier_name s) e7;
          e9 = check_max_length soldierIndex ''Rank'' 50 (soldier_rank s) e8
      in check_max_length soldierIndex ''Unit'' 100 (soldier_unit s) e9)"

text \<open>\<^verbatim>\<open>soldiers.forEach((soldier, index) => ...)\<close>, from position index on.\<close>

fun validate_each :: "nat \<Rightarrow> soldier list \<Rightarrow> string list \<Rightarrow> string list" where
  "validate_each index [] validationErrors = validationErrors"
| "validate_each index (s # rest) validationErrors =
     validate_each (index + 1) rest (validate_soldier (index + 1) s validationErrors)"

text \<open>The candidates: an array as it is, a single element as a one-element array.\<close>

fun candidates :: "soldier_prop option \<Rightarrow> soldier list" where
  "candidates (Some (SoldierArray xs)) = xs"
| "candidates (Some (SoldierSingle s)) = [s]"
| "candidates (Some SoldierAbsent) = []"
| "candidates None = []"

definition validateAgainstXSD :: "xml_data \<Rightarrow> verdict" where
  "validateAgainstXSD xmlData =
     (let cands = candidates (army_records xmlData) in
      if army_records xmlData = None then
        \<lparr>isValid = False,
         errors = [''XSD VIOLATION: Root element must be '' @ [CHR 0x22] @ ''army_records'' @ [CHR 0x22]],
         soldiers = []\<rparr>
      else if cands = [] then
        \<lparr>isValid = False,
         errors = [''XSD VIOLATION: At least one soldier record is required''],
         soldiers = []\<rparr>
      else
        (let validationErrors = validate_each 0 cands [] in
         \<lparr>isValid = (validationErrors = []), errors = validationErrors, soldiers = cands\<rparr>))"

text \<open>
  validateXML: the XML parser is a library; it is a parameter here, returning either
  the message of the error it throws or the parsed document. The type \<open>'x\<close> is the XML
  content: the text of an uploaded file, or the document the XML writer produced. The
  data field of the result, the parsed document itself, is read by no caller and is left
  out.
\<close>

type_synonym 'x xml_parser = "'x \<Rightarrow> string + xml_data"

definition validateXML :: "'x xml_parser \<Rightarrow> 'x \<Rightarrow> verdict" where
  "validateXML parse xmlContent =
     (case parse xmlContent of
        Inr result \<Rightarrow> validateAgainstXSD result
      | Inl message \<Rightarrow>
          \<lparr>isValid = False, errors = [''XML PARSE ERROR: '' @ message], soldiers = []\<rparr>)"

section \<open>The spreadsheets\<close>

text \<open>
  A worksheet is its rows in order (row number r is the r-th element), a row its cell
  values from column 1 on. The spreadsheet library stores what is written and gives it
  back when the file is read; an empty cell reads as null.
\<close>

type_synonym row = "jsval list"
type_synonym worksheet = "row list"

subsection \<open>createInvalidExcel\<close>

definition header_row :: row where
  "header_row = map JStr [''ID'', ''Name'', ''Rank'', ''Unit'', ''Service Date'', ''Status'',
     ''Schema Violations'']"

text \<open>The filter that picks the errors of the record at position index.\<close>

definition soldierErrors :: "string list \<Rightarrow> nat \<Rightarrow> string list" where
  "soldierErrors validationErrors index =
     filter (\<lambda>error.
        str_includes error (''Soldier '' @ show_nat (index + 1)) \<or>
        (str_includes error ''Root element'' \<and> index = 0) \<or>
        (str_includes error ''At least one soldier'' \<and> index = 0)) validationErrors"

definition remarks :: "string list \<Rightarrow> nat \<Rightarrow> string" where
  "remarks validationErrors index =
     (if length (soldierErrors validationErrors index) > 0
      then join ''; '' (soldierErrors validationErrors index)
      else ''General validation error'')"

definition invalid_row :: "string list \<Rightarrow> nat \<Rightarrow> soldier \<Rightarrow> row" where
  "invalid_row validationErrors index record =
     [js_or (soldier_id record) (JStr []),
      js_or (soldier_name record) (JStr []),
      js_or (soldier_rank record) (JStr []),
      js_or (soldier_unit record) (JStr []),
      js_or (soldier_service_date record) (JStr []),
      js_or (soldier_status record) (JStr []),
      JStr (remarks validationErrors index)]"

text \<open>\<^verbatim>\<open>invalidRecords.forEach((record, index) => worksheet.addRow(...))\<close>\<close>

fun invalid_rows :: "string list \<Rightarrow> nat \<Rightarrow> soldier list \<Rightarrow> worksheet" where
  "invalid_rows validationErrors index [] = []"
| "invalid_rows validationErrors index (record # rest) =
     invalid_row validationErrors index record # invalid_rows validationErrors (index + 1) rest"

definition summary_row :: "string \<Rightarrow> row" where
  "summary_row line = [JStr [], JStr [], JStr [], JStr [], JStr [], JStr [], JStr line]"

definition summary_rows :: "string list \<Rightarrow> worksheet" where
  "summary_rows validationErrors =
     (if length validationErrors > 0
      then [] # summary_row ''ALL SCHEMA VIOLATIONS:'' # map summary_row validationErrors
      else [])"

definition createInvalidExcel_sheet :: "soldier list \<Rightarrow> string list \<Rightarrow> worksheet" where
  "createInvalidExcel_sheet invalidRecords validationErrors =
     header_row # invalid_rows validationErrors 0 invalidRecords @ summary_rows validationErrors"

definition excel_file_name :: "string \<Rightarrow> string" where
  "excel_file_name filename = filename @ ''_schema_errors.xlsx''"

subsection \<open>parseExcelToXML\<close>

text \<open>\<^verbatim>\<open>row.getCell(c).value\<close>: a cell beyond the last written one is empty.\<close>

definition getCell :: "row \<Rightarrow> nat \<Rightarrow> jsval" where
  "getCell r c = (if 1 \<le> c \<and> c \<le> length r then r ! (c - 1) else JNull)"

text \<open>\<^verbatim>\<open>value?.toString() || ''\<close>\<close>

fun cell_text :: "jsval \<Rightarrow> string" where
  "cell_text JNull = []"
| "cell_text JUndefined = []"
| "cell_text v = to_String v"

definition row_record :: "row \<Rightarrow> soldier" where
  "row_record r =
     \<lparr>soldier_id = JStr (cell_text (getCell r 1)),
      soldier_name = JStr (cell_text (getCell r 2)),
      soldier_rank = JStr (cell_text (getCell r 3)),
      soldier_unit = JStr (cell_text (getCell r 4)),
      soldier_service_date = JStr (cell_text (getCell r 5)),
      soldier_status = JStr (cell_text (getCell r 6))\<rparr>"

text \<open>eachRow visits the rows that have a value, in order, with their row numbers.\<close>

definition hasValues :: "row \<Rightarrow> bool" where
  "hasValues r = list_ex (\<lambda>c. c \<noteq> JNull \<and> c \<noteq> JUndefined) r"

fun eachRow_records :: "nat \<Rightarrow> worksheet \<Rightarrow> soldier list \<Rightarrow> soldier list" where
  "eachRow_records rowNumber [] records = records"
| "eachRow_records rowNumber (r # rest) records =
     eachRow_records (rowNumber + 1) rest
       (if hasValues r \<and> rowNumber > 1 then
          (let record = row_record r in
           if truthy (soldier_id record) \<and> truthy (soldier_name record)
           then records @ [record] else records)
        else records)"

definition excel_records :: "worksheet \<Rightarrow> soldier list" where
  "excel_records ws = eachRow_records 1 ws []"

definition excel_xmlData :: "worksheet \<Rightarrow> xml_data" where
  "excel_xmlData ws = \<lparr>army_records = Some (SoldierArray (excel_records ws))\<rparr>"

text \<open>
  The XML is written by a library, a parameter here, called with the name of the root
  element and the object built from the rows:
  \<^verbatim>\<open>js2xmlparser.parse('army_records', xmlData)\<close>.
\<close>

type_synonym 'x xml_writer = "string \<Rightarrow> xml_data \<Rightarrow> 'x"

definition parseExcelToXML :: "'x xml_writer \<Rightarrow> worksheet \<Rightarrow> 'x" where
  "parseExcelToXML toXml ws = toXml ''army_records'' (excel_xmlData ws)"

section \<open>The document store\<close>

text \<open>
  A stored soldier: the six fields and the two timestamps of the schema. The casts the
  object mapper applies on assignment are left out: a field is stored as it was given.
\<close>

record soldier_doc =
  doc_fields :: soldier
  created_at :: nat
  updated_at :: nat

record processing_log =
  log_filename :: string
  log_status :: string
  valid_count :: nat
  invalid_count :: nat
  log_errors :: "string list"
  processed_at :: nat

text \<open>
  What the handlers read and write: the two collections, the console, the generated
  spreadsheets by file name, and the two holding areas a processed upload is moved to.
\<close>

record server =
  Soldier :: "soldier_doc list"
  ProcessingLog :: "processing_log list"
  console :: "string list"
  excel_exports :: "(string \<times> worksheet) list"
  corrected :: "string list"
  invalid_records :: "string list"

text \<open>
  What a request cannot control: the time, and which of the awaited calls throws. The
  store calls made for the candidate at position i of a batch (findOne, save) throw when
  \<open>store_throws i\<close> holds; this stands for any reason the store or the object mapper
  rejects the write.
\<close>

record env =
  now :: nat
  store_throws :: "nat \<Rightarrow> bool"
  readFile_throws :: bool
  writeFile_throws :: bool
  move_throws :: bool
  log_create_throws :: bool

text \<open>\<^verbatim>\<open>Soldier.findOne({ id: v })\<close>: the position of the first document with that id.\<close>

fun findOne :: "soldier_doc list \<Rightarrow> jsval \<Rightarrow> nat option" where
  "findOne [] v = None"
| "findOne (d # ds) v =
     (if soldier_id (doc_fields d) = v then Some 0 else map_option Suc (findOne ds v))"

text \<open>Object.assign copies the properties the source object has.\<close>

definition assign_field :: "jsval \<Rightarrow> jsval \<Rightarrow> jsval" where
  "assign_field old new = (if new = JUndefined then old else new)"

definition Object_assign :: "soldier \<Rightarrow> soldier \<Rightarrow> soldier" where
  "Object_assign target source =
     \<lparr>soldier_id = assign_field (soldier_id target) (soldier_id source),
      soldier_name = assign_field (soldier_name target) (soldier_name source),
      soldier_rank = assign_field (soldier_rank target) (soldier_rank source),
      soldier_unit = assign_field (soldier_unit target) (soldier_unit source),
      soldier_service_date = assign_field (soldier_service_date target) (soldier_service_date source),
      soldier_status = assign_field (soldier_status target) (soldier_status source)\<rparr>"

text \<open>
  The body of the loop of saveToMongoDB for the candidate at position i: the try block,
  and the catch that logs and goes on.
\<close>

definition save_soldier ::
  "env \<Rightarrow> nat \<Rightarrow> soldier \<Rightarrow> soldier_doc list \<times> server \<Rightarrow> soldier_doc list \<times> server" where
  "save_soldier e i soldier acc =
     (case acc of (savedRecords, st) \<Rightarrow>
        if store_throws e i then
          (savedRecords,
           st\<lparr>console := console st @
                [''Error saving soldier '' @ to_String (soldier_id soldier) @ '':'']\<rparr>)
        else
          (case findOne (Soldier st) (soldier_id soldier) of
             Some j \<Rightarrow>
               (let existingSoldier = (Soldier st ! j)
                      \<lparr>doc_fields := Object_assign (doc_fields (Soldier st ! j)) soldier,
                       updated_at := now e\<rparr>
                in (savedRecords @ [existingSoldier],
                    st\<lparr>Soldier := (Soldier st)[j := existingSoldier]\<rparr>))
           | None \<Rightarrow>
               (let newSoldier =
                      \<lparr>doc_fields = soldier, created_at = now e, updated_at = now e\<rparr>
                in (savedRecords @ [newSoldier],
                    st\<lparr>Soldier := Soldier st @ [newSoldier]\<rparr>))))"

text \<open>
  The loop over the batch; validRecords is always an array here, as the validator
  returns one.
\<close>

fun save_each ::
  "env \<Rightarrow> nat \<Rightarrow> soldier list \<Rightarrow> soldier_doc list \<times> server \<Rightarrow> soldier_doc list \<times> server" where
  "save_each e i [] acc = acc"
| "save_each e i (soldier # rest) acc = save_each e (i + 1) rest (save_soldier e i soldier acc)"

definition saveToMongoDB :: "env \<Rightarrow> soldier list \<Rightarrow> server \<Rightarrow> soldier_doc list \<times> server" where
  "saveToMongoDB e validRecords st = save_each e 0 validRecords ([], st)"

section \<open>The two upload routes\<close>

record 'c uploaded_file =
  filename :: string
  originalname :: string
  file_content :: 'c

text \<open>
  The responses: 400 without a file, 200 with message, file name and count, 400 with
  message, file name, the invalid count (the re-upload route sends none), the errors and
  the spreadsheet's name, and 500 from the catch of the route.
\<close>

datatype response =
    NoFileUploaded
  | Accepted string string nat
  | Rejected string string "nat option" "string list" string
  | InternalServerError

text \<open>
  The catch of a route: \<^verbatim>\<open>console.error(label, error)\<close> and the 500 response. What
  the try block did before the throw stays done.
\<close>

definition route_catch :: "string \<Rightarrow> server \<Rightarrow> response \<times> server" where
  "route_catch label st = (InternalServerError, st\<lparr>console := console st @ [label]\<rparr>)"

definition upload_xml ::
  "'x xml_parser \<Rightarrow> env \<Rightarrow> 'x uploaded_file option \<Rightarrow> server \<Rightarrow> response \<times> server" where
  "upload_xml parse e file st =
     (case file of
        None \<Rightarrow> (NoFileUploaded, st)
      | Some f \<Rightarrow>
          if readFile_throws e then route_catch ''Upload error:'' st
          else
            (let validation = validateXML parse (file_content f) in
             if isValid validation then
               (case saveToMongoDB e (soldiers validation) st of (savedRecords, st1) \<Rightarrow>
                  if move_throws e then route_catch ''Upload error:'' st1
                  else
                    (let st2 = st1\<lparr>corrected := corrected st1 @ [filename f]\<rparr> in
                     if log_create_throws e then route_catch ''Upload error:'' st2
                     else
                       (Accepted ''File validated against XSD schema successfully''
                          (filename f) (length savedRecords),
                        st2\<lparr>ProcessingLog := ProcessingLog st2 @
                          [\<lparr>log_filename = originalname f, log_status = ''corrected'',
                            valid_count = length savedRecords, invalid_count = 0,
                            log_errors = [], processed_at = now e\<rparr>]\<rparr>)))
             else
               if writeFile_throws e then route_catch ''Upload error:'' st
               else
                 (let st1 = st\<lparr>excel_exports := excel_exports st @
                        [(excel_file_name (filename f),
                          createInvalidExcel_sheet (soldiers validation) (errors validation))]\<rparr>
                  in
                  if move_throws e then route_catch ''Upload error:'' st1
                  else
                    (let st2 = st1\<lparr>invalid_records := invalid_records st1 @ [filename f]\<rparr> in
                     if log_create_throws e then route_catch ''Upload error:'' st2
                     else
                       (Rejected ''XSD Schema validation failed'' (filename f)
                          (Some (length (soldiers validation))) (errors validation)
                          (excel_file_name (filename f)),
                        st2\<lparr>ProcessingLog := ProcessingLog st2 @
                          [\<lparr>log_filename = originalname f, log_status = ''invalid'',
                            valid_count = 0, invalid_count = length (soldiers validation),
                            log_errors = errors validation, processed_at = now e\<rparr>]\<rparr>)))))"

definition reupload_corrected ::
  "'x xml_writer \<Rightarrow> 'x xml_parser \<Rightarrow> env \<Rightarrow> worksheet uploaded_file option \<Rightarrow> server
     \<Rightarrow> response \<times> server" where
  "reupload_corrected toXml parse e file st =
     (case file of
        None \<Rightarrow> (NoFileUploaded, st)
      | Some f \<Rightarrow>
          if readFile_throws e then route_catch ''Re-upload error:'' st
          else
            (let xmlContent = parseExcelToXML toXml (file_content f);
                 validation = validateXML parse xmlContent in
             if isValid validation then
               (case saveToMongoDB e (soldiers validation) st of (savedRecords, st1) \<Rightarrow>
                  if move_throws e then route_catch ''Re-upload error:'' st1
                  else
                    (let st2 = st1\<lparr>corrected := corrected st1 @ [filename f]\<rparr> in
                     if log_create_throws e then route_catch ''Re-upload error:'' st2
                     else
                       (Accepted ''Corrected file validated against XSD schema successfully''
                          (filename f) (length savedRecords),
                        st2\<lparr>ProcessingLog := ProcessingLog st2 @
                          [\<lparr>log_filename = originalname f, log_status = ''corrected'',
                            valid_count = length savedRecords, invalid_count = 0,
                            log_errors = [], processed_at = now e\<rparr>]\<rparr>)))
             else
               if writeFile_throws e then route_catch ''Re-upload error:'' st
               else
                 (let st1 = st\<lparr>excel_exports := excel_exports st @
                        [(excel_file_name (filename f),
                          createInvalidExcel_sheet (soldiers validation) (errors validation))]\<rparr>
                  in
                  if move_throws e then route_catch ''Re-upload error:'' st1
                  else
                    (Rejected ''Corrected file still has XSD schema violations'' (filename f)
                       None (errors validation) (excel_file_name (filename f)),
                     st1\<lparr>invalid_records := invalid_records st1 @ [filename f]\<rparr>))))"

section \<open>The XML libraries on the re-upload path\<close>

text \<open>
  The re-upload route hands the object built from the rows to the XML writer and the
  writer's output to the XML parser. Both are libraries; they are modelled here on the
  document as a tree of elements, which is all the route depends on. The writer makes one
  root element with the given name and, inside it, one child element per property of the
  object: the property army_records becomes an element army_records, and its property
  soldier, an array, one soldier element per record with one child element per field.
\<close>

datatype xml_node = Element string "xml_node list" | Text string

definition field_element :: "string \<Rightarrow> jsval \<Rightarrow> xml_node" where
  "field_element name v = Element name [Text (to_String v)]"

definition soldier_element :: "soldier \<Rightarrow> xml_node" where
  "soldier_element s =
     Element ''soldier''
       [field_element ''id'' (soldier_id s),
        field_element ''name'' (soldier_name s),
        field_element ''rank'' (soldier_rank s),
        field_element ''unit'' (soldier_unit s),
        field_element ''service_date'' (soldier_service_date s),
        field_element ''status'' (soldier_status s)]"

definition js2xmlparser_parse :: "xml_node xml_writer" where
  "js2xmlparser_parse root xmlData =
     Element root
       (case army_records xmlData of
          None \<Rightarrow> []
        | Some p \<Rightarrow> [Element ''army_records'' (map soldier_element (candidates (Some p)))])"

text \<open>
  The parser gives an object with one property, named after the root element, whose
  value has one property per child element name. The validator reads the property
  army_records of the object and the property soldier of its value: the soldier elements
  directly inside a root element named army_records. A leaf's text becomes a value by
  the parser's conversion \<open>leaf\<close> (numeric text to a number, and so on), a parameter.
\<close>

fun node_name :: "xml_node \<Rightarrow> string" where
  "node_name (Element name nodes) = name"
| "node_name (Text t) = []"

fun node_children :: "xml_node \<Rightarrow> xml_node list" where
  "node_children (Element name nodes) = nodes"
| "node_children (Text t) = []"

fun node_text :: "xml_node list \<Rightarrow> string" where
  "node_text [] = []"
| "node_text (Text t # rest) = t @ node_text rest"
| "node_text (Element name nodes # rest) = node_text rest"

definition elements_named :: "string \<Rightarrow> xml_node list \<Rightarrow> xml_node list" where
  "elements_named name nodes =
     filter (\<lambda>n. case n of Element m cs \<Rightarrow> m = name | Text t \<Rightarrow> False) nodes"

definition child_value :: "(string \<Rightarrow> jsval) \<Rightarrow> string \<Rightarrow> xml_node list \<Rightarrow> jsval" where
  "child_value leaf name nodes =
     (case elements_named name nodes of
        [] \<Rightarrow> JUndefined
      | n # rest \<Rightarrow> leaf (node_text (node_children n)))"

definition soldier_of :: "(string \<Rightarrow> jsval) \<Rightarrow> xml_node \<Rightarrow> soldier" where
  "soldier_of leaf n =
     \<lparr>soldier_id = child_value leaf ''id'' (node_children n),
      soldier_name = child_value leaf ''name'' (node_children n),
      soldier_rank = child_value leaf ''rank'' (node_children n),
      soldier_unit = child_value leaf ''unit'' (node_children n),
      soldier_service_date = child_value leaf ''service_date'' (node_children n),
      soldier_status = child_value leaf ''status'' (node_children n)\<rparr>"

definition soldier_prop_of :: "(string \<Rightarrow> jsval) \<Rightarrow> xml_node list \<Rightarrow> soldier_prop" where
  "soldier_prop_of leaf nodes =
     (case elements_named ''soldier'' nodes of
        [] \<Rightarrow> SoldierAbsent
      | [n] \<Rightarrow> if node_children n = [] then SoldierAbsent else SoldierSingle (soldier_of leaf n)
      | n # m # rest \<Rightarrow> SoldierArray (map (soldier_of leaf) (n # m # rest)))"

definition XMLParser_parse :: "(string \<Rightarrow> jsval) \<Rightarrow> xml_node xml_parser" where
  "XMLParser_parse leaf doc =
     Inr \<lparr>army_records =
       (if node_name doc = ''army_records'' \<and> node_children doc \<noteq> []
        then Some (soldier_prop_of leaf (node_children doc)) else None)\<rparr>"

section \<open>Vocabulary of the properties\<close>

text \<open>The six fields, their values in a candidate and their labels in the messages.\<close>

datatype soldier_field = ID | Name | Rank | Unit | ServiceDate | Status



text \<open>A field is valid when none of the checks on it pushes a violation.\<close>

fun field_ok :: "soldier_field \<Rightarrow> soldier \<Rightarrow> bool" where
  "field_ok ID s =
     (truthy (soldier_id s) \<and> is_string (soldier_id s) \<and> \<not> length_exceeds (soldier_id s) 50)"
| "field_ok Name s =
     (truthy (soldier_name s) \<and> is_string (soldier_name s) \<and> \<not> length_exceeds (soldier_name s) 100)"
| "field_ok Rank s =
     (truthy (soldier_rank s) \<and> is_string (soldier_rank s) \<and> \<not> length_exceeds (soldier_rank s) 50)"
| "field_ok Unit s =
     (truthy (soldier_unit s) \<and> is_string (soldier_unit s) \<and> \<not> length_exceeds (soldier_unit s) 100)"
| "field_ok ServiceDate s =
     (truthy (soldier_service_date s) \<and> dateRegex_test (to_String (soldier_service_date s))
      \<and> \<not> date_isNaN (soldier_service_date s))"
| "field_ok Status s =
     (soldier_status s = JStr ''Active'' \<or> soldier_status s = JStr ''Retired''
      \<or> soldier_status s = JStr ''Deceased'')"

text \<open>
  Every check of the callback run on its own, from an empty error list, in the order of
  the source: what each check reports when no other check can influence it.
\<close>

definition all_checks :: "nat \<Rightarrow> soldier \<Rightarrow> string list" where
  "all_checks k s =
     check_required_string k ''ID'' (soldier_id s) [] @
     check_required_string k ''Name'' (soldier_name s) [] @
     check_required_string k ''Rank'' (soldier_rank s) [] @
     check_required_string k ''Unit'' (soldier_unit s) [] @
     check_service_date k (soldier_service_date s) [] @
     check_status k (soldier_status s) [] @
     check_max_length k ''ID'' 50 (soldier_id s) [] @
     check_max_length k ''Name'' 100 (soldier_name s) [] @
     check_max_length k ''Rank'' 50 (soldier_rank s) [] @
     check_max_length k ''Unit'' 100 (soldier_unit s) []"

text \<open>
  The rules of the specification (section 4.1), written from its words and not from the
  validator: each of the six fields is checked for presence; identifier, name, rank and
  unit for being a string and for their length ceiling (50, 100, 50, 100); the service
  date for the format and then for being a real date; the status for being one of the
  three literals. A rule applies to a value that is present; the date rule applies to a
  value of the right format.
\<close>

datatype rule = Presence | Type | Format | Calendar | Enum | Length






text \<open>A non-empty text, and a candidate whose six fields are non-empty texts.\<close>

fun is_text :: "jsval \<Rightarrow> bool" where
  "is_text (JStr a) = (a \<noteq> [])"
| "is_text v = False"

definition six_texts :: "soldier \<Rightarrow> bool" where
  "six_texts s =
     (is_text (soldier_id s) \<and> is_text (soldier_name s) \<and> is_text (soldier_rank s) \<and>
      is_text (soldier_unit s) \<and> is_text (soldier_service_date s) \<and> is_text (soldier_status s))"

text \<open>The identifiers present in the Soldier collection.\<close>

definition doc_ids :: "server \<Rightarrow> jsval set" where
  "doc_ids st = set (map (\<lambda>d. soldier_id (doc_fields d)) (Soldier st))"

section \<open>Sample data\<close>

definition sample_soldier :: soldier where
  "sample_soldier =
     \<lparr>soldier_id = JStr ''S001'', soldier_name = JStr ''John Doe'',
      soldier_rank = JStr ''Private'', soldier_unit = JStr ''Alpha'',
      soldier_service_date = JStr ''2021-01-15'', soldier_status = JStr ''Active''\<rparr>"

definition sample_batch_of_ten :: "soldier list" where
  "sample_batch_of_ten =
     replicate 9 sample_soldier @ [sample_soldier\<lparr>soldier_name := JUndefined\<rparr>]"

text \<open>
  A stand-in for the XML parser at the sample inputs: it throws on the empty text and
  otherwise delivers a batch of two soldiers, the second with a status in the wrong case.
\<close>

definition sample_parse :: "string xml_parser" where
  "sample_parse xmlContent =
     (if xmlContent = [] then Inl ''Unexpected end of input''
      else Inr \<lparr>army_records = Some (SoldierArray
        [sample_soldier, sample_soldier\<lparr>soldier_status := JStr ''active''\<rparr>])\<rparr>)"

text \<open>
  A stand-in for the XML writer, a server with nothing stored, an environment in which
  the store calls for the first candidate of a batch throw and nothing else does, one in
  which nothing throws, and two uploads.
\<close>

definition sample_toXml :: "string xml_writer" where
  "sample_toXml root xmlData = ''<army_records/>''"

definition empty_server :: server where
  "empty_server =
     \<lparr>Soldier = [], ProcessingLog = [], console = [], excel_exports = [],
      corrected = [], invalid_records = []\<rparr>"

definition first_write_fails :: env where
  "first_write_fails =
     \<lparr>now = 1000, store_throws = (\<lambda>i. i = 0), readFile_throws = False,
      writeFile_throws = False, move_throws = False, log_create_throws = False\<rparr>"

definition nothing_fails :: env where
  "nothing_fails =
     \<lparr>now = 1000, store_throws = (\<lambda>i. False), readFile_throws = False,
      writeFile_throws = False, move_throws = False, log_create_throws = False\<rparr>"

definition sample_xml_upload :: "string uploaded_file" where
  "sample_xml_upload =
     \<lparr>filename = ''xmlFile-1.xml'', originalname = ''batch.xml'',
      file_content = ''<army_records/>''\<rparr>"

definition sample_excel_upload :: "worksheet uploaded_file" where
  "sample_excel_upload =
     \<lparr>filename = ''excelFile-2.xlsx'', originalname = ''batch_fixed.xlsx'',
      file_content =
        [map JStr [''ID'', ''Name'', ''Rank'', ''Unit'', ''Service Date'', ''Status''],
         map JStr [''S001'', ''John Doe'', ''Private'', ''Alpha'', ''2021-01-15'', ''Active''],
         map JStr [''S001'', ''John Doe'', ''Private'', ''Alpha'', ''2021-01-15'', ''active'']]\<rparr>"


definition second_soldier :: soldier where
  "second_soldier = sample_soldier\<lparr>soldier_id := JStr ''S002'', soldier_name := JStr ''Jane Roe''\<rparr>"


definition corrected_excel_upload :: "worksheet uploaded_file" where
  "corrected_excel_upload =
     \<lparr>filename = ''excelFile-3.xlsx'', originalname = ''batch_corrected.xlsx'',
      file_content = createInvalidExcel_sheet [sample_soldier, second_soldier] []\<rparr>"

section \<open>Properties\<close>

lemma show_nat_small: "n < 10 \<Longrightarrow> show_nat n = [digit_char n]"
  by (simp add: show_nat.simps)

subsection \<open>The validator runs every check\<close>

lemma check_required_string_app:
  "check_required_string k l v es = es @ check_required_string k l v []"
  by (simp add: check_required_string_def)

lemma check_service_date_app: "check_service_date k v es = es @ check_service_date k v []"
  by (simp add: check_service_date_def)

lemma check_status_app: "check_status k v es = es @ check_status k v []"
  by (simp add: check_status_def)

lemma check_max_length_app:
  "check_max_length k l n v es = es @ check_max_length k l n v []"
  by (simp add: check_max_length_def)

lemma validate_soldier_all_checks: "validate_soldier k s es = es @ all_checks k s"
proof -
  have first: "check_required_string k ''ID'' (soldier_id s) es =
      es @ check_required_string k ''ID'' (soldier_id s) []"
    by (rule check_required_string_app)
  have r: "\<And>l v a b. check_required_string k l v (a @ b) = a @ b @ check_required_string k l v []"
    using check_required_string_app [of k _ _ "_ @ _"] by simp
  have d: "\<And>v a b. check_service_date k v (a @ b) = a @ b @ check_service_date k v []"
    using check_service_date_app [of k _ "_ @ _"] by simp
  have t: "\<And>v a b. check_status k v (a @ b) = a @ b @ check_status k v []"
    using check_status_app [of k _ "_ @ _"] by simp
  have m: "\<And>l n v a b. check_max_length k l n v (a @ b) = a @ b @ check_max_length k l n v []"
    using check_max_length_app [of k _ _ _ "_ @ _"] by simp
  show ?thesis
    unfolding validate_soldier_def all_checks_def Let_def
    by (simp only: first r d t m append_assoc)
qed

lemma validate_each_concat:
  "validate_each i ss es =
     es @ concat (map (\<lambda>(k, s). all_checks k s) (zip [Suc i..<Suc i + length ss] ss))"
proof (induction ss arbitrary: i es)
  case Nil
  then show ?case by simp
next
  case (Cons s ss)
  have "[Suc i..<Suc i + length (s # ss)] = Suc i # [Suc (Suc i)..<Suc (Suc i) + length ss]"
    by (simp add: upt_rec)
  then show ?case
    using Cons.IH [of "i + 1"] by (simp add: validate_soldier_all_checks)
qed

lemma required_ok: "truthy v \<Longrightarrow> is_string v \<Longrightarrow> check_required_string k l v [] = []"
  by (simp add: check_required_string_def)


lemma max_length_ok:
  "\<not> truthy v \<or> \<not> length_exceeds v n \<Longrightarrow> check_max_length k l n v [] = []"
  by (auto simp add: check_max_length_def)

lemma service_date_ok:
  "truthy v \<Longrightarrow> dateRegex_test (to_String v) \<Longrightarrow> \<not> date_isNaN v \<Longrightarrow>
     check_service_date k v [] = []"
  by (simp add: check_service_date_def)


lemma status_ok:
  "v = JStr ''Active'' \<or> v = JStr ''Retired'' \<or> v = JStr ''Deceased'' \<Longrightarrow>
     check_status k v [] = []"
  by (auto simp add: check_status_def)



lemma sample_date_ok: "dateRegex_test ''2021-01-15'' \<and> \<not> iso_date_isNaN ''2021-01-15''"
  by code_simp

lemma sample_soldier_ok: "field_ok g sample_soldier"
  using sample_date_ok by (cases g) (simp_all add: sample_soldier_def)

lemma sample_soldier_clean: "all_checks k sample_soldier = []"
  using sample_soldier_ok [of ID] sample_soldier_ok [of Name] sample_soldier_ok [of Rank]
    sample_soldier_ok [of Unit] sample_soldier_ok [of ServiceDate] sample_soldier_ok [of Status]
  by (simp add: all_checks_def required_ok max_length_ok service_date_ok status_ok)

lemma own_violations_in_errors:
  assumes "i < length ss"
  shows "set (all_checks (Suc i) (ss ! i)) \<subseteq>
      set (concat (map (\<lambda>(k, s). all_checks k s) (zip [1..<Suc (length ss)] ss)))"
proof -
  define ks where "ks = [1..<Suc (length ss)]"
  from assms have "1 + i < Suc (length ss)" by simp
  then have "[1..<Suc (length ss)] ! i = 1 + i" by (rule nth_upt)
  then have n: "ks ! i = Suc i" by (simp only: ks_def plus_1_eq_Suc)
  have "length [1..<Suc (length ss)] = length ss" by (simp only: length_upt diff_Suc_1)
  then have l: "length ks = length ss" by (simp only: ks_def)
  have "(Suc i, ss ! i) \<in> set (zip ks ss)"
    unfolding in_set_zip using n l assms by (intro exI [of _ i]) simp
  then have "set (all_checks (Suc i) (ss ! i)) \<subseteq>
      set (concat (map (\<lambda>(k, s). all_checks k s) (zip ks ss)))"
    by (auto intro!: bexI [of _ "(Suc i, ss ! i)"])
  then show ?thesis by (simp only: ks_def)
qed










subsection \<open>The service date checks\<close>

lemma regex_examples:
  "dateRegex_test ''2021-13-01''" "iso_date_isNaN ''2021-13-01''" "\<not> dateRegex_test ''01/13/2021''"
  by code_simp+

text \<open>
  C2 (amended). For every candidate with a truthy service date, the check first tests
  the regular expression on the value's text and runs the date validity check only on a
  match, so that exactly one of two different violations can result: a text that does
  not match gets the format violation (for example 01/13/2021), and a text that matches
  gets the invalid-date violation when the date does not parse, and nothing otherwise.
  The text 2021-13-01 matches the regular expression: it passes the format check and is
  reported by the second check as an invalid date.
\<close>

theorem service_date_format_then_calendar:
  assumes "truthy v"
  shows "(\<not> dateRegex_test (to_String v) \<longrightarrow>
            check_service_date k v es =
              es @ [violation k ''Service Date must be in YYYY-MM-DD format''])
       \<and> (dateRegex_test (to_String v) \<longrightarrow>
            check_service_date k v es =
              es @ (if date_isNaN v then [violation k (''Invalid date: '' @ to_String v)] else []))
       \<and> violation k ''Service Date must be in YYYY-MM-DD format''
            \<noteq> violation k (''Invalid date: '' @ to_String v)
       \<and> check_service_date k (JStr ''2021-13-01'') es =
            es @ [violation k ''Invalid date: 2021-13-01'']
       \<and> check_service_date k (JStr ''01/13/2021'') es =
            es @ [violation k ''Service Date must be in YYYY-MM-DD format'']"
  using assms regex_examples by (simp add: check_service_date_def violation_def)

theorem service_date_format_then_calendar_witness:
  "truthy (JStr ''2021-13-01'') \<and>
   check_service_date 3 (JStr ''2021-13-01'') [] =
     [''XSD VIOLATION: Soldier 3 - Invalid date: 2021-13-01''] \<and>
   check_service_date 3 (JStr ''01/13/2021'') [] =
     [''XSD VIOLATION: Soldier 3 - Service Date must be in YYYY-MM-DD format'']"
proof -
  have s: "show_nat 3 = ''3''" by code_simp
  have t: "truthy (JStr ''2021-13-01'')" by simp
  from service_date_format_then_calendar [OF t, of 3 "[]"] t show ?thesis
    by (simp add: violation_def s)
qed

text \<open>
  The claim as written has 2021-13-01 fail the format check; in the code it matches the
  regular expression and is reported by the date validity check.
\<close>

theorem service_date_2021_13_01_passes_format:
  "dateRegex_test ''2021-13-01'' \<and>
   check_service_date 1 (JStr ''2021-13-01'') [] =
     [''XSD VIOLATION: Soldier 1 - Invalid date: 2021-13-01'']"
  by code_simp

subsection \<open>The annotated spreadsheet\<close>

lemma starts_with_iff: "starts_with s t \<longleftrightarrow> (\<exists>q. s = t @ q)"
  by (induction s t rule: starts_with.induct) auto

lemma str_includes_iff: "str_includes s t \<longleftrightarrow> (\<exists>p q. s = p @ t @ q)"
proof (induction s)
  case Nil
  then show ?case by auto
next
  case (Cons c s)
  show ?case
  proof
    assume "str_includes (c # s) t"
    then consider "starts_with (c # s) t" | "str_includes s t" by auto
    then show "\<exists>p q. c # s = p @ t @ q"
    proof cases
      case 1
      then obtain q where "c # s = t @ q" by (auto simp: starts_with_iff)
      then have "c # s = [] @ t @ q" by simp
      then show ?thesis by blast
    next
      case 2
      then obtain p q where "s = p @ t @ q" using Cons.IH by blast
      then have "c # s = (c # p) @ t @ q" by simp
      then show ?thesis by blast
    qed
  next
    assume "\<exists>p q. c # s = p @ t @ q"
    then obtain p q where pq: "c # s = p @ t @ q" by blast
    show "str_includes (c # s) t"
    proof (cases p)
      case Nil
      with pq have "starts_with (c # s) t" by (auto simp: starts_with_iff)
      then show ?thesis by simp
    next
      case (Cons d p')
      with pq have "s = p' @ t @ q" by simp
      then have "str_includes s t" using Cons.IH by blast
      then show ?thesis by simp
    qed
  qed
qed

lemma violation_includes_tag:
  "str_includes (violation k msg) (''Soldier '' @ show_nat k)"
proof -
  have "violation k msg = ''XSD VIOLATION: '' @ (''Soldier '' @ show_nat k) @ ('' - '' @ msg)"
    by (simp add: violation_def)
  then show ?thesis unfolding str_includes_iff by blast
qed

lemma required_tagged:
  "e \<in> set (check_required_string k l v []) \<Longrightarrow> \<exists>msg. e = violation k msg"
  by (auto simp: check_required_string_def split: if_splits)

lemma service_date_tagged:
  "e \<in> set (check_service_date k v []) \<Longrightarrow> \<exists>msg. e = violation k msg"
  by (auto simp: check_service_date_def split: if_splits)

lemma status_tagged: "e \<in> set (check_status k v []) \<Longrightarrow> \<exists>msg. e = violation k msg"
  by (auto simp: check_status_def split: if_splits)

lemma max_length_tagged:
  "e \<in> set (check_max_length k l n v []) \<Longrightarrow> \<exists>msg. e = violation k msg"
  by (auto simp: check_max_length_def split: if_splits)

lemma all_checks_tagged:
  assumes "e \<in> set (all_checks k s)"
  shows "\<exists>msg. e = violation k msg"
proof -
  from assms have
    "e \<in> set (check_required_string k ''ID'' (soldier_id s) []) \<or>
     e \<in> set (check_required_string k ''Name'' (soldier_name s) []) \<or>
     e \<in> set (check_required_string k ''Rank'' (soldier_rank s) []) \<or>
     e \<in> set (check_required_string k ''Unit'' (soldier_unit s) []) \<or>
     e \<in> set (check_service_date k (soldier_service_date s) []) \<or>
     e \<in> set (check_status k (soldier_status s) []) \<or>
     e \<in> set (check_max_length k ''ID'' 50 (soldier_id s) []) \<or>
     e \<in> set (check_max_length k ''Name'' 100 (soldier_name s) []) \<or>
     e \<in> set (check_max_length k ''Rank'' 50 (soldier_rank s) []) \<or>
     e \<in> set (check_max_length k ''Unit'' 100 (soldier_unit s) [])"
    unfolding all_checks_def set_append Un_iff by blast
  then show ?thesis
    using required_tagged service_date_tagged status_tagged max_length_tagged by blast
qed

lemma length_invalid_rows: "length (invalid_rows errs j rs) = length rs"
  by (induction rs arbitrary: j) auto

lemma nth_invalid_rows:
  "i < length rs \<Longrightarrow> invalid_rows errs j rs ! i = invalid_row errs (j + i) (rs ! i)"
proof (induction rs arbitrary: i j)
  case Nil
  then show ?case by simp
next
  case (Cons r rs)
  show ?case
  proof (cases i)
    case 0
    then show ?thesis by simp
  next
    case (Suc i')
    with Cons.prems have "i' < length rs" by simp
    from Cons.IH [OF this, of "j + 1"] Suc show ?thesis by simp
  qed
qed

lemma nth_sheet_data_row:
  "i < length rs \<Longrightarrow>
     createInvalidExcel_sheet rs errs ! Suc i = invalid_row errs i (rs ! i)"
  by (simp add: createInvalidExcel_sheet_def nth_append length_invalid_rows nth_invalid_rows)

lemma join_nonempty: "x \<noteq> [] \<Longrightarrow> join sep (x # xs) \<noteq> []"
  by (cases xs) auto

lemma soldierErrors_nonempty_elems: "e \<in> set (soldierErrors errs i) \<Longrightarrow> e \<noteq> []"
  by (auto simp: soldierErrors_def)

lemma remarks_nonempty: "remarks errs i \<noteq> []"
proof (cases "soldierErrors errs i")
  case Nil
  then show ?thesis by (simp add: remarks_def)
next
  case (Cons e es)
  then have "e \<noteq> []" using soldierErrors_nonempty_elems [of e errs i] by simp
  with Cons show ?thesis by (simp add: remarks_def join_nonempty)
qed

text \<open>
  C10. In a generated annotated spreadsheet, the Schema Violations cell (column 7) of
  every data row (row i + 2 for the record at position i) is a non-empty text: the
  joined errors the filter selects for the row, and the fixed text General validation
  error when the filter selects none.
\<close>

theorem schema_violations_cell_never_empty:
  assumes "i < length invalidRecords"
  shows "getCell (createInvalidExcel_sheet invalidRecords validationErrors ! Suc i) 7 =
           JStr (remarks validationErrors i)
       \<and> remarks validationErrors i \<noteq> []
       \<and> (soldierErrors validationErrors i = [] \<longrightarrow>
            remarks validationErrors i = ''General validation error'')"
proof -
  have a: "getCell (createInvalidExcel_sheet invalidRecords validationErrors ! Suc i) 7 =
      JStr (remarks validationErrors i)"
    using assms by (simp add: nth_sheet_data_row invalid_row_def getCell_def)
  have c: "soldierErrors validationErrors i = [] \<longrightarrow>
      remarks validationErrors i = ''General validation error''"
    by (simp add: remarks_def)
  from a c remarks_nonempty [of validationErrors i] show ?thesis by blast
qed

theorem schema_violations_cell_never_empty_witness:
  "getCell (createInvalidExcel_sheet [sample_soldier, sample_soldier\<lparr>soldier_status := JStr ''active''\<rparr>]
      [''XSD VIOLATION: Soldier 2 - Status must be one of: Active, Retired, Deceased (got: active)'']
      ! Suc 0) 7 = JStr ''General validation error''"
proof -
  let ?rs = "[sample_soldier, sample_soldier\<lparr>soldier_status := JStr ''active''\<rparr>]"
  let ?errs = "[''XSD VIOLATION: Soldier 2 - Status must be one of: Active, Retired, Deceased (got: active)'']"
  have l: "0 < length ?rs" by simp
  have e: "soldierErrors ?errs 0 = []" by code_simp
  from schema_violations_cell_never_empty [OF l, of ?errs] e show ?thesis by simp
qed

lemma rejected_has_errors:
  assumes "\<not> isValid (validateXML parse xmlContent)"
  shows "errors (validateXML parse xmlContent) \<noteq> []"
  using assms
  by (auto simp: validateXML_def validateAgainstXSD_def Let_def split: sum.splits if_splits)

lemma validateXML_candidates:
  assumes "soldiers (validateXML parse xmlContent) \<noteq> []"
  shows "errors (validateXML parse xmlContent) =
      concat (map (\<lambda>(k, s). all_checks k s)
        (zip [1..<Suc (length (soldiers (validateXML parse xmlContent)))]
          (soldiers (validateXML parse xmlContent))))"
proof (cases "parse xmlContent")
  case (Inl m)
  with assms show ?thesis by (simp add: validateXML_def)
next
  case (Inr x)
  then have v: "validateXML parse xmlContent = validateAgainstXSD x"
    by (simp add: validateXML_def)
  show ?thesis
  proof (cases "army_records x")
    case None
    with assms v show ?thesis by (simp add: validateAgainstXSD_def)
  next
    case (Some p)
    show ?thesis
    proof (cases "candidates (Some p) = []")
      case True
      with assms v Some show ?thesis by (simp add: validateAgainstXSD_def)
    next
      case False
      with Some have "errors (validateAgainstXSD x) = validate_each 0 (candidates (Some p)) []"
        and "soldiers (validateAgainstXSD x) = candidates (Some p)"
        by (simp_all add: validateAgainstXSD_def Let_def)
      with v show ?thesis by (simp add: validate_each_concat)
    qed
  qed
qed

lemma own_violations_selected:
  assumes "set (all_checks (Suc i) s) \<subseteq> set errs"
  shows "set (all_checks (Suc i) s) \<subseteq> set (soldierErrors errs i)"
proof
  fix e assume e: "e \<in> set (all_checks (Suc i) s)"
  then obtain msg where "e = violation (Suc i) msg" using all_checks_tagged by blast
  then have "str_includes e (''Soldier '' @ show_nat (i + 1))"
    using violation_includes_tag [of "Suc i" msg] by simp
  with e assms show "e \<in> set (soldierErrors errs i)"
    by (auto simp: soldierErrors_def)
qed

text \<open>
  C3 (amended). For every rejected batch with N extracted candidates, the annotated
  spreadsheet is the header row, then exactly N data rows, one per candidate in order,
  then an empty row, a heading row and one row per violation, verbatim and in order. Data
  row i + 1 carries the candidate's six values (the empty text for a falsy one) and, in
  its seventh cell, the errors the filter selects for the row joined by a semicolon and a
  space, or the text General validation error when the filter selects none; the
  selected errors include every violation the validator reported for that candidate.
\<close>

theorem annotated_sheet_rows:
  assumes v: "v = validateXML parse xmlContent"
    and rejected: "\<not> isValid v"
  shows "createInvalidExcel_sheet (soldiers v) (errors v) =
           header_row # invalid_rows (errors v) 0 (soldiers v) @
           [[], summary_row ''ALL SCHEMA VIOLATIONS:''] @ map summary_row (errors v)
       \<and> length (invalid_rows (errors v) 0 (soldiers v)) = length (soldiers v)
       \<and> (\<forall>i. i < length (soldiers v) \<longrightarrow>
            invalid_rows (errors v) 0 (soldiers v) ! i =
              [js_or (soldier_id (soldiers v ! i)) (JStr []),
               js_or (soldier_name (soldiers v ! i)) (JStr []),
               js_or (soldier_rank (soldiers v ! i)) (JStr []),
               js_or (soldier_unit (soldiers v ! i)) (JStr []),
               js_or (soldier_service_date (soldiers v ! i)) (JStr []),
               js_or (soldier_status (soldiers v ! i)) (JStr []),
               JStr (remarks (errors v) i)]
          \<and> remarks (errors v) i =
              (if soldierErrors (errors v) i = [] then ''General validation error''
               else join ''; '' (soldierErrors (errors v) i))
          \<and> set (all_checks (Suc i) (soldiers v ! i)) \<subseteq> set (soldierErrors (errors v) i))"
proof -
  have ne: "errors v \<noteq> []"
    using rejected_has_errors [of parse xmlContent] rejected v by simp
  then have a: "createInvalidExcel_sheet (soldiers v) (errors v) =
           header_row # invalid_rows (errors v) 0 (soldiers v) @
           [[], summary_row ''ALL SCHEMA VIOLATIONS:''] @ map summary_row (errors v)"
    by (simp add: createInvalidExcel_sheet_def summary_rows_def)
  have b: "length (invalid_rows (errors v) 0 (soldiers v)) = length (soldiers v)"
    by (rule length_invalid_rows)
  have c: "invalid_rows (errors v) 0 (soldiers v) ! i =
              [js_or (soldier_id (soldiers v ! i)) (JStr []),
               js_or (soldier_name (soldiers v ! i)) (JStr []),
               js_or (soldier_rank (soldiers v ! i)) (JStr []),
               js_or (soldier_unit (soldiers v ! i)) (JStr []),
               js_or (soldier_service_date (soldiers v ! i)) (JStr []),
               js_or (soldier_status (soldiers v ! i)) (JStr []),
               JStr (remarks (errors v) i)]" if "i < length (soldiers v)" for i
    using that by (simp add: nth_invalid_rows invalid_row_def)
  have d: "remarks (errors v) i =
              (if soldierErrors (errors v) i = [] then ''General validation error''
               else join ''; '' (soldierErrors (errors v) i))" for i
    by (simp add: remarks_def)
  have e: "set (all_checks (Suc i) (soldiers v ! i)) \<subseteq> set (soldierErrors (errors v) i)"
    if "i < length (soldiers v)" for i
  proof -
    from that have "soldiers v \<noteq> []" by auto
    then have "errors v = concat (map (\<lambda>(k, s). all_checks k s)
        (zip [1..<Suc (length (soldiers v))] (soldiers v)))"
      using validateXML_candidates [of parse xmlContent] v by simp
    with own_violations_in_errors [OF that]
    have "set (all_checks (Suc i) (soldiers v ! i)) \<subseteq> set (errors v)" by simp
    then show ?thesis by (rule own_violations_selected)
  qed
  from a b c d e show ?thesis by blast
qed

theorem annotated_sheet_rows_witness:
  "\<not> isValid (validateXML sample_parse ''<army_records/>'')
   \<and> length (invalid_rows (errors (validateXML sample_parse ''<army_records/>'')) 0
        (soldiers (validateXML sample_parse ''<army_records/>''))) = 2
   \<and> set (all_checks (Suc 1) (soldiers (validateXML sample_parse ''<army_records/>'') ! 1))
        \<subseteq> set (soldierErrors (errors (validateXML sample_parse ''<army_records/>'')) 1)"
proof -
  let ?v = "validateXML sample_parse ''<army_records/>''"
  have r: "\<not> isValid ?v" by code_simp
  have l: "length (soldiers ?v) = 2" by code_simp
  from annotated_sheet_rows [OF refl r] l r show ?thesis by simp
qed

text \<open>
  The claim as written gives the seventh cell of row k exactly the violations of ordinal
  k. In a batch of ten whose only violation is on the tenth candidate, the row of the
  first candidate shows that violation (the text Soldier 1 occurs in Soldier 10), and the
  row of the second candidate shows the fallback text, which is no violation of the list.
\<close>

theorem row_one_shows_soldier_ten:
  "\<not> isValid (validateAgainstXSD \<lparr>army_records = Some (SoldierArray sample_batch_of_ten)\<rparr>)
   \<and> errors (validateAgainstXSD \<lparr>army_records = Some (SoldierArray sample_batch_of_ten)\<rparr>) =
       [''XSD VIOLATION: Soldier 10 - Missing required field: Name'']
   \<and> all_checks 1 (sample_batch_of_ten ! 0) = []
   \<and> all_checks 2 (sample_batch_of_ten ! 1) = []
   \<and> getCell (createInvalidExcel_sheet sample_batch_of_ten
         [''XSD VIOLATION: Soldier 10 - Missing required field: Name''] ! 1) 7 =
       JStr ''XSD VIOLATION: Soldier 10 - Missing required field: Name''
   \<and> getCell (createInvalidExcel_sheet sample_batch_of_ten
         [''XSD VIOLATION: Soldier 10 - Missing required field: Name''] ! 2) 7 =
       JStr ''General validation error''"
  by code_simp

subsection \<open>Reading a spreadsheet back\<close>

lemma no_values_no_text: "\<not> hasValues r \<Longrightarrow> cell_text (getCell r c) = []"
proof -
  assume h: "\<not> hasValues r"
  then have all: "\<And>x. x \<in> set r \<Longrightarrow> x = JNull \<or> x = JUndefined"
    by (auto simp: hasValues_def list_ex_iff)
  show ?thesis
  proof (cases "1 \<le> c \<and> c \<le> length r")
    case True
    then have "c - 1 < length r" by arith
    then have "r ! (c - 1) \<in> set r" by (rule nth_mem)
    with all have "r ! (c - 1) = JNull \<or> r ! (c - 1) = JUndefined" by blast
    with True show ?thesis by (auto simp: getCell_def)
  next
    case False
    then have "getCell r c = JNull" unfolding getCell_def by (rule if_not_P)
    then show ?thesis by simp
  qed
qed

lemma row_record_basic:
  "truthy (soldier_id (row_record r)) \<longleftrightarrow> cell_text (getCell r 1) \<noteq> []"
  "truthy (soldier_name (row_record r)) \<longleftrightarrow> cell_text (getCell r 2) \<noteq> []"
  by (simp_all add: row_record_def)

lemma eachRow_records_from_two:
  "2 \<le> n \<Longrightarrow> eachRow_records n ws acc =
     acc @ map row_record
       (filter (\<lambda>r. cell_text (getCell r 1) \<noteq> [] \<and> cell_text (getCell r 2) \<noteq> []) ws)"
proof (induction ws arbitrary: n acc)
  case Nil
  then show ?case by simp
next
  case (Cons r ws)
  from Cons.prems have n: "n > 1" by simp
  have ih: "eachRow_records (n + 1) ws acc' =
     acc' @ map row_record
       (filter (\<lambda>r. cell_text (getCell r 1) \<noteq> [] \<and> cell_text (getCell r 2) \<noteq> []) ws)"
    for acc'
    using Cons.IH [of "n + 1" acc'] Cons.prems by simp
  show ?case
  proof (cases "hasValues r")
    case True
    with n show ?thesis
      unfolding eachRow_records.simps ih Let_def row_record_basic by simp
  next
    case False
    with n no_values_no_text [OF False, of 1] show ?thesis
      unfolding eachRow_records.simps ih by simp
  qed
qed

lemma excel_records_filter:
  "excel_records ws = map row_record
     (filter (\<lambda>r. cell_text (getCell r 1) \<noteq> [] \<and> cell_text (getCell r 2) \<noteq> []) (drop 1 ws))"
proof (cases ws)
  case Nil
  then show ?thesis by (simp add: excel_records_def)
next
  case (Cons h rest)
  have "(2::nat) \<le> 1 + 1" by simp
  from eachRow_records_from_two [OF this, of rest "[]"] Cons show ?thesis
    by (simp add: excel_records_def)
qed

text \<open>
  C4 (amended). For every parsed spreadsheet, each row after the first maps positionally
  to the six record fields, an empty or missing cell becoming the empty text, and a row
  is dropped, with no violation raised, exactly when the text of its identifier cell or
  the text of its name cell is empty; every other row is kept as a candidate, in order.
\<close>

theorem excel_rows_to_records:
  "excel_records ws = map row_record
     (filter (\<lambda>r. cell_text (getCell r 1) \<noteq> [] \<and> cell_text (getCell r 2) \<noteq> []) (drop 1 ws))
   \<and> row_record r =
       \<lparr>soldier_id = JStr (cell_text (getCell r 1)),
        soldier_name = JStr (cell_text (getCell r 2)),
        soldier_rank = JStr (cell_text (getCell r 3)),
        soldier_unit = JStr (cell_text (getCell r 4)),
        soldier_service_date = JStr (cell_text (getCell r 5)),
        soldier_status = JStr (cell_text (getCell r 6))\<rparr>
   \<and> cell_text JNull = [] \<and> cell_text (JStr []) = []
   \<and> getCell r (length r + Suc d) = JNull"
  by (simp add: excel_records_filter row_record_def getCell_def)

theorem excel_rows_to_records_witness:
  "excel_records
     [[JStr ''ID'', JStr ''Name'', JStr ''Rank'', JStr ''Unit'', JStr ''Service Date'', JStr ''Status''],
      [JStr ''S001'', JStr ''John Doe'', JStr ''Private'', JStr ''Alpha'', JStr ''2021-01-15'', JStr ''Active''],
      [JNull, JNull, JStr ''stray note''],
      [JStr ''S002'', JStr ''Jane Roe'', JNull, JStr ''Bravo'']]
   = [sample_soldier,
      \<lparr>soldier_id = JStr ''S002'', soldier_name = JStr ''Jane Roe'', soldier_rank = JStr [],
       soldier_unit = JStr ''Bravo'', soldier_service_date = JStr [], soldier_status = JStr []\<rparr>]"
proof -
  let ?ws = "[[JStr ''ID'', JStr ''Name'', JStr ''Rank'', JStr ''Unit'', JStr ''Service Date'', JStr ''Status''],
      [JStr ''S001'', JStr ''John Doe'', JStr ''Private'', JStr ''Alpha'', JStr ''2021-01-15'', JStr ''Active''],
      [JNull, JNull, JStr ''stray note''],
      [JStr ''S002'', JStr ''Jane Roe'', JNull, JStr ''Bravo'']]"
  have "excel_records ?ws = map row_record
     (filter (\<lambda>r. cell_text (getCell r 1) \<noteq> [] \<and> cell_text (getCell r 2) \<noteq> []) (drop 1 ?ws))"
    using excel_rows_to_records [of ?ws "[]" 0] by blast
  then show ?thesis
    by (simp add: row_record_def getCell_def sample_soldier_def)
qed

text \<open>
  The claim as written keeps every row that has an identifier or a name. A row with an
  identifier and an empty name cell is dropped.
\<close>

theorem row_with_identifier_only_dropped:
  "cell_text (getCell [JStr ''S002'', JNull, JStr ''Sergeant'', JStr ''Bravo'', JStr ''2020-05-01'', JStr ''Active''] 1)
     = ''S002''
   \<and> excel_records
     [[JStr ''ID'', JStr ''Name'', JStr ''Rank'', JStr ''Unit'', JStr ''Service Date'', JStr ''Status''],
      [JStr ''S002'', JNull, JStr ''Sergeant'', JStr ''Bravo'', JStr ''2020-05-01'', JStr ''Active'']]
     = []"
  by code_simp

subsection \<open>Tree form to rows and back\<close>

lemma digit_char_is_digit: "d < 10 \<Longrightarrow> is_digit (digit_char d)"
proof -
  assume "d < 10"
  then have "d \<in> set [0, 1, 2, 3, 4, 5, 6, 7, 8, 9]" by simp arith
  then show ?thesis by (auto simp: digit_char_def is_digit_def)
qed

lemma show_nat_digits: "c \<in> set (show_nat n) \<Longrightarrow> is_digit c"
proof (induction n arbitrary: c rule: show_nat.induct)
  case (1 n)
  show ?case
  proof (cases "n < 10")
    case True
    with "1.prems" show ?thesis by (simp add: show_nat.simps [of n] digit_char_is_digit)
  next
    case False
    then have "n mod 10 < 10" by simp
    with False "1.prems" "1.IH" show ?thesis
      by (auto simp: show_nat.simps [of n] digit_char_is_digit)
  qed
qed

lemma match_digits_rest: "match_digits n s = Some r \<Longrightarrow> set r \<subseteq> set s"
  by (induction n s rule: match_digits.induct) (auto split: if_splits)

lemma hyphen_not_digit: "\<not> is_digit CHR ''-''"
  by (simp add: is_digit_def)

lemma match_hyphen_digits: "(\<And>c. c \<in> set r \<Longrightarrow> is_digit c) \<Longrightarrow> match_char CHR ''-'' r = None"
  using hyphen_not_digit by (cases r) auto

lemma all_digits_no_date: 
  assumes "\<And>c. c \<in> set s \<Longrightarrow> is_digit c"
  shows "\<not> dateRegex_test s"
proof (cases "match_digits 4 s")
  case None
  then show ?thesis by (simp add: dateRegex_test_def)
next
  case (Some r)
  with match_digits_rest have "set r \<subseteq> set s" by blast
  with assms have "match_char CHR ''-'' r = None" by (intro match_hyphen_digits) blast
  with Some show ?thesis by (simp add: dateRegex_test_def)
qed

lemma number_no_date: "\<not> dateRegex_test (show_int n)"
proof (cases "n < 0")
  case True
  have "match_digits 4 (CHR ''-'' # t) = None" for t
    using hyphen_not_digit by (simp add: numeral_eq_Suc)
  with True show ?thesis by (simp add: show_int_def dateRegex_test_def)
next
  case False
  then show ?thesis using all_digits_no_date [of "show_nat (nat n)"] show_nat_digits
    by (simp add: show_int_def)
qed

lemma boolean_no_date: "\<not> dateRegex_test ''true''" "\<not> dateRegex_test ''false''"
  by code_simp+

lemma service_date_ok_is_text:
  assumes "check_service_date k v [] = []"
  shows "is_text v"
proof -
  from assms have t: "truthy v" and m: "dateRegex_test (to_String v)"
    by (auto simp: check_service_date_def split: if_splits)
  show ?thesis
  proof (cases v)
    case (JStr a)
    with t show ?thesis by simp
  next
    case (JNum n)
    with m number_no_date show ?thesis by simp
  next
    case (JBool b)
    with m boolean_no_date show ?thesis by (cases b) simp_all
  next
    case JUndefined
    with t show ?thesis by simp
  next
    case JNull
    with t show ?thesis by simp
  qed
qed

lemma required_ok_is_text:
  assumes "check_required_string k l v [] = []"
  shows "is_text v"
  using assms by (cases v) (auto simp: check_required_string_def split: if_splits)

lemma status_ok_is_text:
  assumes "check_status k v [] = []"
  shows "is_text v"
  using assms by (auto simp: check_status_def split: if_splits)

lemma clean_six_texts:
  assumes "all_checks k s = []"
  shows "six_texts s"
proof -
  from assms have
    "check_required_string k ''ID'' (soldier_id s) [] = []"
    "check_required_string k ''Name'' (soldier_name s) [] = []"
    "check_required_string k ''Rank'' (soldier_rank s) [] = []"
    "check_required_string k ''Unit'' (soldier_unit s) [] = []"
    "check_service_date k (soldier_service_date s) [] = []"
    "check_status k (soldier_status s) [] = []"
    unfolding all_checks_def append_is_Nil_conv by blast+
  then show ?thesis
    unfolding six_texts_def
    using required_ok_is_text service_date_ok_is_text status_ok_is_text by blast
qed

lemma is_text_cases: "is_text v \<Longrightarrow> \<exists>a. v = JStr a \<and> a \<noteq> []"
  by (cases v) simp_all

lemma row_of_six_texts:
  assumes "six_texts s"
  shows "row_record (invalid_row errs i s) = s"
    and "cell_text (getCell (invalid_row errs i s) 1) \<noteq> []"
    and "cell_text (getCell (invalid_row errs i s) 2) \<noteq> []"
proof -
  from assms have "is_text (soldier_id s)" "is_text (soldier_name s)" "is_text (soldier_rank s)"
    "is_text (soldier_unit s)" "is_text (soldier_service_date s)" "is_text (soldier_status s)"
    by (simp_all add: six_texts_def)
  then obtain a b c d e f where
    v: "soldier_id s = JStr a" "soldier_name s = JStr b" "soldier_rank s = JStr c"
      "soldier_unit s = JStr d" "soldier_service_date s = JStr e" "soldier_status s = JStr f"
    and n: "a \<noteq> []" "b \<noteq> []" "c \<noteq> []" "d \<noteq> []" "e \<noteq> []" "f \<noteq> []"
    using is_text_cases by metis
  have cells: "invalid_row errs i s =
      [JStr a, JStr b, JStr c, JStr d, JStr e, JStr f, JStr (remarks errs i)]"
    using v n by (simp add: invalid_row_def js_or_def)
  show "row_record (invalid_row errs i s) = s"
    unfolding cells using v by (simp add: row_record_def getCell_def)
  show "cell_text (getCell (invalid_row errs i s) 1) \<noteq> []"
    unfolding cells using n by (simp add: getCell_def)
  show "cell_text (getCell (invalid_row errs i s) 2) \<noteq> []"
    unfolding cells using n by (simp add: getCell_def)
qed

lemma data_rows_read_back:
  assumes "\<And>s. s \<in> set ss \<Longrightarrow> six_texts s"
  shows "map row_record
     (filter (\<lambda>r. cell_text (getCell r 1) \<noteq> [] \<and> cell_text (getCell r 2) \<noteq> [])
        (invalid_rows errs j ss)) = ss"
  using assms
proof (induction ss arbitrary: j)
  case Nil
  then show ?case by simp
next
  case (Cons s ss)
  then have "six_texts s" by simp
  from row_of_six_texts [OF this, of errs j] Cons show ?case by simp
qed

lemma summary_rows_read_back:
  "filter (\<lambda>r. cell_text (getCell r 1) \<noteq> [] \<and> cell_text (getCell r 2) \<noteq> [])
     (summary_rows errs) = []"
  by (auto simp: summary_rows_def summary_row_def getCell_def filter_empty_conv)

lemma valid_batch_clean:
  assumes "isValid (validateAgainstXSD xmlData)"
  shows "army_records xmlData = Some (SoldierArray (soldiers (validateAgainstXSD xmlData)))
           \<or> (\<exists>s. army_records xmlData = Some (SoldierSingle s)
                 \<and> soldiers (validateAgainstXSD xmlData) = [s])"
    and "soldiers (validateAgainstXSD xmlData) \<noteq> []"
    and "errors (validateAgainstXSD xmlData) = []"
    and "validate_each 0 (soldiers (validateAgainstXSD xmlData)) [] = []"
proof -
  from assms obtain p where p: "army_records xmlData = Some p"
    by (cases "army_records xmlData") (auto simp: validateAgainstXSD_def)
  from assms p have c: "candidates (Some p) \<noteq> []"
    by (auto simp: validateAgainstXSD_def Let_def split: if_splits)
  from p c have s: "soldiers (validateAgainstXSD xmlData) = candidates (Some p)"
    by (simp add: validateAgainstXSD_def Let_def)
  from assms p c have e: "validate_each 0 (candidates (Some p)) [] = []"
    by (simp add: validateAgainstXSD_def Let_def)
  show "soldiers (validateAgainstXSD xmlData) \<noteq> []" using s c by simp
  show "validate_each 0 (soldiers (validateAgainstXSD xmlData)) [] = []" using s e by simp
  show "errors (validateAgainstXSD xmlData) = []"
    using p c e by (simp add: validateAgainstXSD_def Let_def)
  show "army_records xmlData = Some (SoldierArray (soldiers (validateAgainstXSD xmlData)))
           \<or> (\<exists>s. army_records xmlData = Some (SoldierSingle s)
                 \<and> soldiers (validateAgainstXSD xmlData) = [s])"
    using p c s by (cases p) auto
qed

lemma valid_batch_six_texts:
  assumes "isValid (validateAgainstXSD xmlData)"
    and "s \<in> set (soldiers (validateAgainstXSD xmlData))"
  shows "six_texts s"
proof -
  let ?ss = "soldiers (validateAgainstXSD xmlData)"
  from assms(2) obtain i where i: "i < length ?ss" "?ss ! i = s"
    by (auto simp: in_set_conv_nth)
  have c: "concat (map (\<lambda>(k, s). all_checks k s) (zip [1..<Suc (length ?ss)] ?ss)) = []"
    using valid_batch_clean(4) [OF assms(1)] validate_each_concat [of 0 ?ss "[]"] by simp
  have "set (all_checks (Suc i) (?ss ! i)) \<subseteq> {}"
    using own_violations_in_errors [OF i(1)] unfolding c by (simp only: list.set)
  then have "all_checks (Suc i) (?ss ! i) = []" by simp
  with i show ?thesis using clean_six_texts by blast
qed

text \<open>
  The rows themselves are lossless: for every valid batch, writing its candidates as
  spreadsheet rows and reading the rows back gives the same records in the same order,
  and the object built from them holds exactly these records.
\<close>

lemma valid_batch_rows_read_back:
  assumes "isValid (validateAgainstXSD xmlData)"
  shows "excel_records (createInvalidExcel_sheet (soldiers (validateAgainstXSD xmlData)) errs)
           = soldiers (validateAgainstXSD xmlData)
       \<and> excel_xmlData (createInvalidExcel_sheet (soldiers (validateAgainstXSD xmlData)) errs)
           = \<lparr>army_records = Some (SoldierArray (soldiers (validateAgainstXSD xmlData)))\<rparr>
       \<and> validateAgainstXSD
            (excel_xmlData (createInvalidExcel_sheet (soldiers (validateAgainstXSD xmlData)) errs))
           = validateAgainstXSD xmlData"
proof -
  let ?ss = "soldiers (validateAgainstXSD xmlData)"
  have texts: "\<And>s. s \<in> set ?ss \<Longrightarrow> six_texts s"
    using valid_batch_six_texts [OF assms] by blast
  have a: "excel_records (createInvalidExcel_sheet ?ss errs) = ?ss"
    unfolding excel_records_filter createInvalidExcel_sheet_def
    using data_rows_read_back [where errs = errs and j = 0 and ss = ?ss, OF texts]
      summary_rows_read_back [of errs]
    by simp
  then have b: "excel_xmlData (createInvalidExcel_sheet ?ss errs)
      = \<lparr>army_records = Some (SoldierArray ?ss)\<rparr>"
    by (simp add: excel_xmlData_def)
  have "validateAgainstXSD \<lparr>army_records = Some (SoldierArray ?ss)\<rparr> =
      \<lparr>isValid = True, errors = [], soldiers = ?ss\<rparr>"
    using valid_batch_clean(2,4) [OF assms] by (simp add: validateAgainstXSD_def Let_def)
  moreover have "validateAgainstXSD xmlData = \<lparr>isValid = True, errors = [], soldiers = ?ss\<rparr>"
    using assms valid_batch_clean(3) [OF assms] by simp
  ultimately have c: "validateAgainstXSD (excel_xmlData (createInvalidExcel_sheet ?ss errs))
      = validateAgainstXSD xmlData"
    using b by simp
  from a b c show ?thesis by blast
qed

lemma written_under_second_root:
  "parseExcelToXML js2xmlparser_parse ws =
     Element ''army_records''
       [Element ''army_records'' (map soldier_element (excel_records ws))]"
  by (simp add: parseExcelToXML_def js2xmlparser_parse_def excel_xmlData_def)

lemma no_soldier_under_root:
  "soldier_prop_of leaf [Element ''army_records'' nodes] = SoldierAbsent"
  by (simp add: soldier_prop_of_def elements_named_def)

lemma reread_has_no_candidates:
  "validateXML (XMLParser_parse leaf) (parseExcelToXML js2xmlparser_parse ws) =
     \<lparr>isValid = False,
      errors = [''XSD VIOLATION: At least one soldier record is required''],
      soldiers = []\<rparr>"
  unfolding written_under_second_root
  by (simp add: validateXML_def XMLParser_parse_def no_soldier_under_root validateAgainstXSD_def)

lemma two_valid: "validate_each 0 [sample_soldier, second_soldier] [] = []"
  by code_simp

text \<open>
  C9, evaluated at a valid batch of two records: written as rows and read back, the rows
  give the two records again, but parseExcelToXML hands the object that already has the
  key army_records to the writer under a root element named army_records, so the
  document has the records one level too deep; read back, it has no candidate, the
  validator rejects it, and the re-upload route answers 400.
\<close>

theorem roundtrip_loses_every_record:
  "isValid (validateAgainstXSD \<lparr>army_records = Some (SoldierArray [sample_soldier, second_soldier])\<rparr>)
   \<and> soldiers (validateAgainstXSD \<lparr>army_records = Some (SoldierArray [sample_soldier, second_soldier])\<rparr>)
       = [sample_soldier, second_soldier]
   \<and> excel_records (createInvalidExcel_sheet [sample_soldier, second_soldier] [])
       = [sample_soldier, second_soldier]
   \<and> parseExcelToXML js2xmlparser_parse (createInvalidExcel_sheet [sample_soldier, second_soldier] [])
       = Element ''army_records''
           [Element ''army_records'' [soldier_element sample_soldier, soldier_element second_soldier]]
   \<and> validateXML (XMLParser_parse JStr)
         (parseExcelToXML js2xmlparser_parse
            (createInvalidExcel_sheet [sample_soldier, second_soldier] []))
       = \<lparr>isValid = False,
          errors = [''XSD VIOLATION: At least one soldier record is required''],
          soldiers = []\<rparr>
   \<and> fst (reupload_corrected js2xmlparser_parse (XMLParser_parse JStr) nothing_fails
         (Some corrected_excel_upload) empty_server)
       = Rejected ''Corrected file still has XSD schema violations'' ''excelFile-3.xlsx'' None
           [''XSD VIOLATION: At least one soldier record is required'']
           ''excelFile-3.xlsx_schema_errors.xlsx''"
proof -
  let ?ss = "[sample_soldier, second_soldier]"
  have v: "validateAgainstXSD \<lparr>army_records = Some (SoldierArray ?ss)\<rparr> =
      \<lparr>isValid = True, errors = [], soldiers = ?ss\<rparr>"
    using two_valid by (simp add: validateAgainstXSD_def Let_def)
  have rec: "excel_records (createInvalidExcel_sheet ?ss []) = ?ss"
    using valid_batch_rows_read_back [of "\<lparr>army_records = Some (SoldierArray ?ss)\<rparr>" "[]"] v
    by simp
  have w: "parseExcelToXML js2xmlparser_parse (createInvalidExcel_sheet ?ss [])
       = Element ''army_records''
           [Element ''army_records'' [soldier_element sample_soldier, soldier_element second_soldier]]"
    unfolding written_under_second_root rec by simp
  have r: "fst (reupload_corrected js2xmlparser_parse (XMLParser_parse JStr) nothing_fails
         (Some corrected_excel_upload) empty_server)
       = Rejected ''Corrected file still has XSD schema violations'' ''excelFile-3.xlsx'' None
           [''XSD VIOLATION: At least one soldier record is required'']
           ''excelFile-3.xlsx_schema_errors.xlsx''"
    by (simp add: reupload_corrected_def Let_def reread_has_no_candidates nothing_fails_def
        corrected_excel_upload_def excel_file_name_def)
  from v rec w r reread_has_no_candidates [of JStr "createInvalidExcel_sheet ?ss []"]
  show ?thesis by simp
qed

subsection \<open>The upload routes\<close>

text \<open>
  C1. When the verdict of an uploaded batch has isValid = false, the run leaves the
  Soldier collection as it was, on the upload route and on the re-upload route, whatever
  the environment does: the rejected branch makes no store call for any candidate. The
  console, where a failed save would be reported, gets no line either, except the one
  line of the route's catch when the run ends in a 500 response.
\<close>

theorem rejected_batch_is_not_persisted:
  "(\<not> isValid (validateXML parse (file_content f)) \<longrightarrow>
      Soldier (snd (upload_xml parse e (Some f) st)) = Soldier st \<and>
      console (snd (upload_xml parse e (Some f) st)) =
        console st @
        (if fst (upload_xml parse e (Some f) st) = InternalServerError
         then [''Upload error:''] else []))
   \<and> (\<not> isValid (validateXML parse (parseExcelToXML toXml (file_content g))) \<longrightarrow>
      Soldier (snd (reupload_corrected toXml parse e (Some g) st)) = Soldier st \<and>
      console (snd (reupload_corrected toXml parse e (Some g) st)) =
        console st @
        (if fst (reupload_corrected toXml parse e (Some g) st) = InternalServerError
         then [''Re-upload error:''] else []))"
  by (simp add: upload_xml_def reupload_corrected_def route_catch_def Let_def)

lemma sample_rejected:
  "\<not> isValid (validateXML sample_parse ''<army_records/>'')"
  by code_simp

theorem rejected_batch_is_not_persisted_witness:
  "\<not> isValid (validateXML sample_parse (file_content sample_xml_upload))
   \<and> Soldier (snd (upload_xml sample_parse nothing_fails (Some sample_xml_upload) empty_server))
       = Soldier empty_server
   \<and> \<not> isValid (validateXML sample_parse
          (parseExcelToXML sample_toXml (file_content sample_excel_upload)))
   \<and> Soldier (snd (reupload_corrected sample_toXml sample_parse nothing_fails
          (Some sample_excel_upload) empty_server))
       = Soldier empty_server"
proof -
  have a: "\<not> isValid (validateXML sample_parse (file_content sample_xml_upload))"
    using sample_rejected by (simp add: sample_xml_upload_def)
  have b: "\<not> isValid (validateXML sample_parse
      (parseExcelToXML sample_toXml (file_content sample_excel_upload)))"
    using sample_rejected by (simp add: parseExcelToXML_def sample_toXml_def)
  from rejected_batch_is_not_persisted [of sample_parse sample_xml_upload nothing_fails
      empty_server sample_toXml sample_excel_upload] a b
  show ?thesis by blast
qed

text \<open>
  C5, evaluated at a rejected re-upload: the run answers 400 with the violation list and
  the spreadsheet's name and writes no Processing Log entry, whereas the upload route
  given the same rejected batch writes one entry with status invalid, zero valid records
  and the full violation list.
\<close>

theorem reupload_rejected_writes_no_log:
  "\<not> isValid (validateXML sample_parse
       (parseExcelToXML sample_toXml (file_content sample_excel_upload)))
   \<and> ProcessingLog (snd (reupload_corrected sample_toXml sample_parse nothing_fails
        (Some sample_excel_upload) empty_server)) = []
   \<and> fst (reupload_corrected sample_toXml sample_parse nothing_fails
        (Some sample_excel_upload) empty_server) =
       Rejected ''Corrected file still has XSD schema violations'' ''excelFile-2.xlsx'' None
         [''XSD VIOLATION: Soldier 2 - Status must be one of: Active, Retired, Deceased (got: active)'']
         ''excelFile-2.xlsx_schema_errors.xlsx''
   \<and> ProcessingLog (snd (upload_xml sample_parse nothing_fails
        (Some sample_xml_upload) empty_server)) =
       [\<lparr>log_filename = ''batch.xml'', log_status = ''invalid'', valid_count = 0,
         invalid_count = 2,
         log_errors = [''XSD VIOLATION: Soldier 2 - Status must be one of: Active, Retired, Deceased (got: active)''],
         processed_at = 1000\<rparr>]"
  by code_simp

subsection \<open>Persistence\<close>

lemma findOne_Some:
  "findOne ds v = Some j \<Longrightarrow> j < length ds \<and> soldier_id (doc_fields (ds ! j)) = v"
proof (induction ds arbitrary: j)
  case Nil
  then show ?case by simp
next
  case (Cons d ds)
  show ?case
  proof (cases "soldier_id (doc_fields d) = v")
    case True
    with Cons.prems show ?thesis by simp
  next
    case False
    with Cons.prems obtain j' where "findOne ds v = Some j'" "j = Suc j'" by auto
    with Cons.IH [of j'] show ?thesis by simp
  qed
qed



lemma Object_assign_id:
  "soldier_id t = soldier_id s \<Longrightarrow> soldier_id (Object_assign t s) = soldier_id s"
  by (simp add: Object_assign_def assign_field_def)



lemma zip_upt_Cons:
  "zip [j..<j + length (s # ss)] (s # ss) = (j, s) # zip [Suc j..<Suc j + length ss] ss"
proof -
  have "[j..<j + length (s # ss)] = j # [Suc j..<Suc j + length ss]"
    by (simp add: upt_rec)
  then show ?thesis by simp
qed

lemma save_soldier_throws:
  "store_throws e i \<Longrightarrow>
     save_soldier e i s (saved, st) =
       (saved, st\<lparr>console := console st @
          [''Error saving soldier '' @ to_String (soldier_id s) @ '':'']\<rparr>)"
  by (simp add: save_soldier_def)

lemma save_soldier_works:
  assumes "\<not> store_throws e i"
  shows "\<exists>d st'. save_soldier e i s (saved, st) = (saved @ [d], st')
     \<and> soldier_id (doc_fields d) = soldier_id s
     \<and> console st' = console st
     \<and> doc_ids st' = insert (soldier_id s) (doc_ids st)"
proof (cases "findOne (Soldier st) (soldier_id s)")
  case None
  with assms show ?thesis
    by (simp add: save_soldier_def Let_def doc_ids_def)
next
  case (Some j)
  from findOne_Some [OF Some] have j: "j < length (Soldier st)"
    and id: "soldier_id (doc_fields (Soldier st ! j)) = soldier_id s" by simp_all
  let ?d = "(Soldier st ! j)\<lparr>doc_fields := Object_assign (doc_fields (Soldier st ! j)) s,
      updated_at := now e\<rparr>"
  have did: "soldier_id (doc_fields ?d) = soldier_id s"
    using Object_assign_id [OF id] by simp
  have "map (\<lambda>d. soldier_id (doc_fields d)) ((Soldier st)[j := ?d]) =
      map (\<lambda>d. soldier_id (doc_fields d)) (Soldier st)"
    using j id did by (simp add: map_update list_update_same_conv)
  moreover have "soldier_id s \<in> doc_ids st"
    using j id unfolding doc_ids_def by (metis (mono_tags, lifting) length_map nth_map nth_mem)
  ultimately have "doc_ids (st\<lparr>Soldier := (Soldier st)[j := ?d]\<rparr>) = insert (soldier_id s) (doc_ids st)"
    by (auto simp: doc_ids_def)
  with Some assms did show ?thesis
    by (simp add: save_soldier_def Let_def)
qed

lemma save_each_outcome:
  assumes "save_each e j ss (saved, st) = (saved', st')"
  shows "console st' = console st @
           map (\<lambda>(i, s). ''Error saving soldier '' @ to_String (soldier_id s) @ '':'')
             (filter (\<lambda>(i, s). store_throws e i) (zip [j..<j + length ss] ss))
       \<and> map (\<lambda>d. soldier_id (doc_fields d)) saved' =
           map (\<lambda>d. soldier_id (doc_fields d)) saved @
           map (\<lambda>(i, s). soldier_id s)
             (filter (\<lambda>(i, s). \<not> store_throws e i) (zip [j..<j + length ss] ss))
       \<and> doc_ids st' = doc_ids st \<union>
           set (map (\<lambda>(i, s). soldier_id s)
             (filter (\<lambda>(i, s). \<not> store_throws e i) (zip [j..<j + length ss] ss)))"
  using assms
proof (induction ss arbitrary: j saved st)
  case Nil
  then show ?case by simp
next
  case (Cons s ss)
  show ?case
  proof (cases "store_throws e j")
    case True
    let ?st1 = "st\<lparr>console := console st @
          [''Error saving soldier '' @ to_String (soldier_id s) @ '':'']\<rparr>"
    from Cons.prems True have "save_each e (Suc j) ss (saved, ?st1) = (saved', st')"
      by (simp add: save_soldier_throws)
    from Cons.IH [OF this] True show ?thesis
      unfolding zip_upt_Cons by (simp add: doc_ids_def)
  next
    case False
    from save_soldier_works [OF False, of s saved st] obtain d st1 where
      step: "save_soldier e j s (saved, st) = (saved @ [d], st1)"
      and d: "soldier_id (doc_fields d) = soldier_id s"
      and c: "console st1 = console st"
      and ids: "doc_ids st1 = insert (soldier_id s) (doc_ids st)"
      by blast
    from Cons.prems step have "save_each e (Suc j) ss (saved @ [d], st1) = (saved', st')"
      by simp
    from Cons.IH [OF this] False d c ids show ?thesis
      unfolding zip_upt_Cons by simp
  qed
qed

text \<open>
  C7. saveToMongoDB goes through every candidate of the batch whatever happens to the
  others: each candidate whose store calls throw leaves one line on the error console
  naming its identifier, in batch order, and each candidate whose store calls do not
  throw is among the saved records, in batch order, and its identifier is in the
  collection afterwards, also when candidates before it failed.
\<close>

theorem store_failure_is_isolated:
  assumes "saveToMongoDB e validRecords st = (savedRecords, st')"
  shows "console st' = console st @
           map (\<lambda>(i, s). ''Error saving soldier '' @ to_String (soldier_id s) @ '':'')
             (filter (\<lambda>(i, s). store_throws e i) (zip [0..<length validRecords] validRecords))
       \<and> map (\<lambda>d. soldier_id (doc_fields d)) savedRecords =
           map (\<lambda>(i, s). soldier_id s)
             (filter (\<lambda>(i, s). \<not> store_throws e i) (zip [0..<length validRecords] validRecords))
       \<and> (\<forall>i. i < length validRecords \<and> \<not> store_throws e i \<longrightarrow>
             soldier_id (validRecords ! i) \<in>
               set (map (\<lambda>d. soldier_id (doc_fields d)) (Soldier st')))"
proof -
  let ?ok = "filter (\<lambda>(i, s). \<not> store_throws e i) (zip [0..<length validRecords] validRecords)"
  from assms have "save_each e 0 validRecords ([], st) = (savedRecords, st')"
    by (simp add: saveToMongoDB_def)
  from save_each_outcome [OF this]
  have a: "console st' = console st @
           map (\<lambda>(i, s). ''Error saving soldier '' @ to_String (soldier_id s) @ '':'')
             (filter (\<lambda>(i, s). store_throws e i) (zip [0..<length validRecords] validRecords))"
    and b: "map (\<lambda>d. soldier_id (doc_fields d)) savedRecords = map (\<lambda>(i, s). soldier_id s) ?ok"
    and c: "doc_ids st' = doc_ids st \<union> set (map (\<lambda>(i, s). soldier_id s) ?ok)"
    by simp_all
  have d: "soldier_id (validRecords ! i) \<in> set (map (\<lambda>d. soldier_id (doc_fields d)) (Soldier st'))"
    if i: "i < length validRecords" and w: "\<not> store_throws e i" for i
  proof -
    have "zip [0..<length validRecords] validRecords ! i = (i, validRecords ! i)"
      using i by simp
    moreover have "i < length (zip [0..<length validRecords] validRecords)" using i by simp
    ultimately have "(i, validRecords ! i) \<in> set (zip [0..<length validRecords] validRecords)"
      by (metis nth_mem)
    with w have "(i, validRecords ! i) \<in> set ?ok" by simp
    then have "soldier_id (validRecords ! i) \<in> set (map (\<lambda>(i, s). soldier_id s) ?ok)"
      by force
    with c show ?thesis by (simp add: doc_ids_def)
  qed
  from a b d show ?thesis by blast
qed

theorem store_failure_is_isolated_witness:
  "console (snd (saveToMongoDB first_write_fails
      [sample_soldier, sample_soldier\<lparr>soldier_id := JStr ''S002''\<rparr>] empty_server)) =
     [''Error saving soldier S001:'']
   \<and> map (\<lambda>d. soldier_id (doc_fields d)) (fst (saveToMongoDB first_write_fails
      [sample_soldier, sample_soldier\<lparr>soldier_id := JStr ''S002''\<rparr>] empty_server)) =
     [JStr ''S002'']"
proof -
  let ?ss = "[sample_soldier, sample_soldier\<lparr>soldier_id := JStr ''S002''\<rparr>]"
  let ?r = "saveToMongoDB first_write_fails ?ss empty_server"
  have p: "?r = (fst ?r, snd ?r)" by simp
  have z: "zip [0..<length ?ss] ?ss = [(0, sample_soldier), (1, sample_soldier\<lparr>soldier_id := JStr ''S002''\<rparr>)]"
    by (simp add: upt_rec)
  have t: "store_throws first_write_fails = (\<lambda>i. i = 0)" by (simp add: first_write_fails_def)
  have c: "console empty_server = []" by (simp add: empty_server_def)
  from store_failure_is_isolated [OF p] show ?thesis
    unfolding z t c by (simp add: sample_soldier_def)
qed

end
